theory Spec2Isabelle
  imports Main "HOL-Library.Word"
begin

unbundle bit_operations_syntax

section \<open>SMBasic: an I2C bus session with optional multiplexer channel lock\<close>

text \<open>
  A shallow embedding of \<^verbatim>\<open>src/smbasic.py\<close>. The object's attributes are a record
  that the methods take and return; everything outside the object (the device file, the
  process alarm, standard output, the clock) is a second record, the world, that every
  method threads through. Exceptions are values: a method returns \<open>Inl e\<close> where the
  Python raises \<open>e\<close>. A method that may block or loop forever returns an \<open>option\<close>,
  and \<open>None\<close> means that it never returns.
\<close>

subsection \<open>Data\<close>

type_synonym byte = "8 word"

text \<open>The exceptions that the module raises or lets through.\<close>

datatype exn =
    AssertionError string
  | AttributeError
  | OSError
  | ValueError
  | TypeError
  | OverflowError
  | Exception string

text \<open>
  The lines the module prints. The formatted text is kept as a constructor with the
  values that the format string interpolates.
\<close>

datatype logline =
    SelectingDevice int
  | ReadBytes "byte list"
  | FailedReadBytes int "int option" "byte list option"
  | IOErrorReadBytes "int option" "byte list option"
  | WritingBytes "byte list"
  | FailedWriteBytes int "int option" "byte list option"
  | IOErrorWriteBytes "int option" "byte list option"

text \<open>
  What the hardware does with one blocking call: it completes, it never answers, or the
  driver reports an error.
\<close>

datatype 'a outcome = Done 'a | Hang | Fault

text \<open>What the Python sees of that call: a value, TimeoutException, or OSError.\<close>

datatype 'a xfer = Returned 'a | TimedOut | IOFault

text \<open>
  The observable effects, in order. A transfer is recorded with the slave address that
  the handle is bound to when it happens, and with what the hardware did.
\<close>

datatype event =
    Print logline
  | OpenDev int
  | CloseDev int
  | Ioctl int int int
  | SigHandler
  | Alarm nat
  | DevRead int int "byte list outcome"
  | DevWrite int "byte list" "nat outcome"
  | Sleep_ms nat

text \<open>
  The hardware is a script: the answer to the \<open>k\<close>-th ioctl, the \<open>k\<close>-th read and the
  \<open>k\<close>-th write, and which bus numbers have a device file.
\<close>

record hw =
  ioctl_ok :: "nat \<Rightarrow> bool"
  read_res :: "nat \<Rightarrow> byte list outcome"
  write_res :: "nat \<Rightarrow> nat outcome"
  openable :: "int \<Rightarrow> bool"

record world =
  n_ioctl :: nat
  n_read :: nat
  n_write :: nat
  slave :: int
  alarm :: nat
  trace :: "event list"

text \<open>
  The attributes of an \<open>SMBasic\<close> object. \<open>locked\<close> is \<open>Lockable._locked\<close>;
  \<open>device\<close> is \<open>_device\<close>, the open file on \<open>/dev/i2c-{bus}\<close> identified by its bus
  number; \<open>channel\<close> is the bytearray holding the channel mask.
\<close>

record smbasic =
  locked :: bool
  mux :: "int option"
  channel :: "byte list option"
  verbose :: bool
  device :: "int option"

definition I2C_DEVICE :: int where
  "I2C_DEVICE = 0x0703"

definition I2C_TIMEOUT :: nat where
  "I2C_TIMEOUT = 2"

definition MUX_UNLOCK_REGISTER :: "byte list" where
  "MUX_UNLOCK_REGISTER = [0]"

definition not_open_msg :: string where
  "not_open_msg = ''Bus must be opened before operations are made against it!''"

subsection \<open>Primitives of the world\<close>

definition emit :: "event \<Rightarrow> world \<Rightarrow> world" where
  "emit e w = w\<lparr>trace := trace w @ [e]\<rparr>"

text \<open>\<open>signal.alarm(n)\<close>: replaces the pending alarm; \<open>0\<close> cancels it.\<close>

definition set_alarm :: "nat \<Rightarrow> world \<Rightarrow> world" where
  "set_alarm n w = emit (Alarm n) (w\<lparr>alarm := n\<rparr>)"

text \<open>
  A blocking call under the process alarm. A call that hangs is interrupted when the
  pending alarm fires (the handler raises TimeoutException, and the alarm is used up);
  with no alarm pending it blocks forever.
\<close>

definition blocking :: "'a outcome \<Rightarrow> world \<Rightarrow> ('a xfer \<times> world) option" where
  "blocking oc w =
     (case oc of
        Done x \<Rightarrow> Some (Returned x, w)
      | Fault \<Rightarrow> Some (IOFault, w)
      | Hang \<Rightarrow> if alarm w = 0 then None else Some (TimedOut, w\<lparr>alarm := 0\<rparr>))"

text \<open>\<open>file.read(number)\<close> on a raw file: at most \<open>number\<close> bytes, all of them when negative.\<close>

definition clip :: "int \<Rightarrow> byte list \<Rightarrow> byte list" where
  "clip number bs = (if number < 0 then bs else take (nat number) bs)"

definition clip_outcome :: "int \<Rightarrow> byte list outcome \<Rightarrow> byte list outcome" where
  "clip_outcome number oc = (case oc of Done bs \<Rightarrow> Done (clip number bs) | Hang \<Rightarrow> Hang | Fault \<Rightarrow> Fault)"

definition dev_read :: "hw \<Rightarrow> int \<Rightarrow> world \<Rightarrow> (byte list xfer \<times> world) option" where
  "dev_read h number w =
     (let oc = clip_outcome number (read_res h (n_read w))
      in blocking oc (emit (DevRead (slave w) number oc) (w\<lparr>n_read := Suc (n_read w)\<rparr>)))"

definition dev_write :: "hw \<Rightarrow> byte list \<Rightarrow> world \<Rightarrow> (nat xfer \<times> world) option" where
  "dev_write h buf w =
     (let oc = write_res h (n_write w)
      in blocking oc (emit (DevWrite (slave w) buf oc) (w\<lparr>n_write := Suc (n_write w)\<rparr>)))"

text \<open>\<open>bytearray(number)\<close>: that many zero bytes; a negative count raises ValueError.\<close>

definition bytearray_zeros :: "int \<Rightarrow> exn + byte list" where
  "bytearray_zeros number = (if number < 0 then Inl ValueError else Inr (replicate (nat number) 0))"

text \<open>\<open>bytearray([v])\<close>: one byte; a value outside \<open>range(0, 256)\<close> raises ValueError.\<close>

definition bytearray1 :: "int \<Rightarrow> exn + byte list" where
  "bytearray1 v = (if 0 \<le> v \<and> v < 256 then Inr [word_of_int v] else Inl ValueError)"

text \<open>\<open>1 << channel\<close>: a negative shift count raises ValueError.\<close>

definition shift1 :: "int \<Rightarrow> exn + int" where
  "shift1 c = (if c < 0 then Inl ValueError else Inr (push_bit (nat c) 1))"

text \<open>\<open>ord(b)\<close> on a bytes object: defined for length one only.\<close>

definition py_ord :: "byte list \<Rightarrow> exn + int" where
  "py_ord bs = (case bs of [b] \<Rightarrow> Inr (uint b) | _ \<Rightarrow> Inl TypeError)"

text \<open>\<open>v.to_bytes(1, 'big')\<close>.\<close>

definition to_bytes1 :: "int \<Rightarrow> exn + byte list" where
  "to_bytes1 v = (if 0 \<le> v \<and> v < 256 then Inr [word_of_int v] else Inl OverflowError)"

subsection \<open>Lockable\<close>

definition try_lock :: "smbasic \<Rightarrow> bool \<times> smbasic" where
  "try_lock s = (if locked s then (False, s) else (True, s\<lparr>locked := True\<rparr>))"

definition unlock :: "smbasic \<Rightarrow> smbasic" where
  "unlock s = (if locked s then s\<lparr>locked := False\<rparr> else s)"

subsection \<open>SMBasic: open, close, construction\<close>

text \<open>\<open>close\<close>: closes the device file if there is one, and forgets it.\<close>

definition close :: "smbasic \<Rightarrow> world \<Rightarrow> smbasic \<times> world" where
  "close s w =
     (case device s of
        None \<Rightarrow> (s, w)
      | Some fd \<Rightarrow> (s\<lparr>device := None\<rparr>, emit (CloseDev fd) w))"

text \<open>
  \<open>open\<close>: closes a device that is still open, then opens the device file of the bus;
  the built-in \<open>open\<close> raises OSError when it cannot.
\<close>

definition open_bus :: "hw \<Rightarrow> smbasic \<Rightarrow> int \<Rightarrow> world \<Rightarrow> (exn + unit) \<times> smbasic \<times> world" where
  "open_bus h s bus w =
     (let (s1, w1) = (if device s \<noteq> None then close s w else (s, w))
      in if openable h bus then (Inr (), s1\<lparr>device := Some bus\<rparr>, emit (OpenDev bus) w1)
         else (Inl OSError, s1, w1))"

text \<open>
  The mask that \<open>__init__\<close> stores: \<open>bytearray([1 << channel])\<close>, or None without a
  channel.
\<close>

definition channel_mask :: "int option \<Rightarrow> exn + byte list option" where
  "channel_mask ch =
     (case ch of
        None \<Rightarrow> Inr None
      | Some c \<Rightarrow>
          (case shift1 c of
             Inl e \<Rightarrow> Inl e
           | Inr v \<Rightarrow> (case bytearray1 v of Inl e \<Rightarrow> Inl e | Inr b \<Rightarrow> Inr (Some b))))"

text \<open>
  \<open>__init__\<close>. The assertion comes first, then the mask, then the open; the object
  exists only when all three succeed.
\<close>

definition init :: "hw \<Rightarrow> int \<Rightarrow> int option \<Rightarrow> int option \<Rightarrow> bool \<Rightarrow> world \<Rightarrow> (exn + smbasic) \<times> world" where
  "init h bus mx ch vb w =
     (if (mx \<noteq> None) \<noteq> (ch \<noteq> None) then (Inl (AssertionError []), w)
      else
        (case channel_mask ch of
           Inl e \<Rightarrow> (Inl e, w)
         | Inr m \<Rightarrow>
             (case open_bus h \<lparr>locked = False, mux = mx, channel = m, verbose = vb, device = None\<rparr> bus w of
                (Inl e, s, w1) \<Rightarrow> (Inl e, w1)
              | (Inr _, s, w1) \<Rightarrow> (Inr s, w1))))"

text \<open>\<open>__del__\<close>.\<close>

definition del :: "smbasic \<Rightarrow> world \<Rightarrow> smbasic \<times> world" where
  "del s w = close s w"

subsection \<open>SMBasic: the timed transfers\<close>

definition select_device :: "hw \<Rightarrow> smbasic \<Rightarrow> int \<Rightarrow> bool \<Rightarrow> world \<Rightarrow> (exn + unit) \<times> world" where
  "select_device h s addr vb w =
     (let w1 = (if vb then emit (Print (SelectingDevice addr)) w else w)
      in case device s of
           None \<Rightarrow> (Inl AttributeError, w1)
         | Some fd \<Rightarrow>
             (let arg = addr AND 0x7F;
                  w2 = emit (Ioctl fd I2C_DEVICE arg) (w1\<lparr>n_ioctl := Suc (n_ioctl w1)\<rparr>)
              in if ioctl_ok h (n_ioctl w1) then (Inr (), w2\<lparr>slave := arg\<rparr>)
                 else (Inl OSError, w2)))"

definition read_bytes :: "hw \<Rightarrow> smbasic \<Rightarrow> int \<Rightarrow> int \<Rightarrow> world \<Rightarrow> ((exn + byte list) \<times> world) option" where
  "read_bytes h s addr number w =
     (if device s = None then Some (Inl (AssertionError not_open_msg), w)
      else
        (case select_device h s addr (verbose s) w of
           (Inl e, w1) \<Rightarrow> Some (Inl e, w1)
         | (Inr _, w1) \<Rightarrow>
             (case dev_read h number (set_alarm I2C_TIMEOUT (emit SigHandler w1)) of
                None \<Rightarrow> None
              | Some (Returned result, w2) \<Rightarrow>
                  (let w3 = (if verbose s then emit (Print (ReadBytes result)) w2 else w2)
                   in Some (Inr result, set_alarm 0 w3))
              | Some (TimedOut, w2) \<Rightarrow>
                  (let w3 = emit (Print (FailedReadBytes addr (mux s) (channel s))) w2
                   in Some (bytearray_zeros number, set_alarm 0 w3))
              | Some (IOFault, w2) \<Rightarrow>
                  (let w3 = emit (Print (IOErrorReadBytes (mux s) (channel s))) w2
                   in Some (bytearray_zeros number, set_alarm 0 w3)))))"

definition write_bytes :: "hw \<Rightarrow> smbasic \<Rightarrow> int \<Rightarrow> byte list \<Rightarrow> bool \<Rightarrow> world \<Rightarrow> ((exn + unit) \<times> world) option" where
  "write_bytes h s addr buf vb w =
     (if device s = None then Some (Inl (AssertionError not_open_msg), w)
      else
        (case select_device h s addr vb w of
           (Inl e, w1) \<Rightarrow> Some (Inl e, w1)
         | (Inr _, w1) \<Rightarrow>
             (let w2 = (if vb then emit (Print (WritingBytes buf)) w1 else w1)
              in case dev_write h buf (set_alarm I2C_TIMEOUT (emit SigHandler w2)) of
                   None \<Rightarrow> None
                 | Some (Returned _, w3) \<Rightarrow> Some (Inr (), set_alarm 0 w3)
                 | Some (TimedOut, w3) \<Rightarrow>
                     Some (Inr (), set_alarm 0 (emit (Print (FailedWriteBytes addr (mux s) (channel s))) w3))
                 | Some (IOFault, w3) \<Rightarrow>
                     Some (Inr (), set_alarm 0 (emit (Print (IOErrorWriteBytes (mux s) (channel s))) w3)))))"

subsection \<open>SMBasic: the scope\<close>

text \<open>
  The loop of \<open>__enter__\<close>: read one byte from the mux; while it differs from the mask,
  sleep 50 ms, write the mask again and read again.
\<close>

partial_function (option) enter_wait ::
  "hw \<Rightarrow> smbasic \<Rightarrow> int \<Rightarrow> byte list \<Rightarrow> world \<Rightarrow> ((exn + unit) \<times> world) option" where
  "enter_wait h s m ch w =
     (case read_bytes h s m 1 w of
        None \<Rightarrow> None
      | Some (Inl e, w1) \<Rightarrow> Some (Inl e, w1)
      | Some (Inr r, w1) \<Rightarrow>
          (case py_ord r of
             Inl e \<Rightarrow> Some (Inl e, w1)
           | Inr v \<Rightarrow>
               (case to_bytes1 v of
                  Inl e \<Rightarrow> Some (Inl e, w1)
                | Inr b \<Rightarrow>
                    if b \<noteq> ch then
                      (case write_bytes h s m ch (verbose s) (emit (Sleep_ms 50) w1) of
                         None \<Rightarrow> None
                       | Some (Inl e, w2) \<Rightarrow> Some (Inl e, w2)
                       | Some (Inr _, w2) \<Rightarrow> enter_wait h s m ch w2)
                    else Some (Inr (), w1))))"

definition enter :: "hw \<Rightarrow> smbasic \<Rightarrow> world \<Rightarrow> ((exn + smbasic) \<times> world) option" where
  "enter h s w =
     (case (mux s, channel s) of
        (Some m, Some ch) \<Rightarrow>
          (case write_bytes h s m ch (verbose s) w of
             None \<Rightarrow> None
           | Some (Inl e, w1) \<Rightarrow> Some (Inl e, w1)
           | Some (Inr _, w1) \<Rightarrow>
               (case enter_wait h s m ch w1 of
                  None \<Rightarrow> None
                | Some (Inl e, w2) \<Rightarrow> Some (Inl e, w2)
                | Some (Inr _, w2) \<Rightarrow> Some (Inr s, w2)))
      | _ \<Rightarrow> Some (Inr s, w))"

text \<open>
  The loop of \<open>__exit__\<close>: read one byte from the mux; while it is not the zero byte,
  sleep 50 ms, write the zero byte to the mux and read again.
\<close>

partial_function (option) exit_wait ::
  "hw \<Rightarrow> smbasic \<Rightarrow> int \<Rightarrow> world \<Rightarrow> ((exn + unit) \<times> world) option" where
  "exit_wait h s m w =
     (case read_bytes h s m 1 w of
        None \<Rightarrow> None
      | Some (Inl e, w1) \<Rightarrow> Some (Inl e, w1)
      | Some (Inr r, w1) \<Rightarrow>
          (case py_ord r of
             Inl e \<Rightarrow> Some (Inl e, w1)
           | Inr v \<Rightarrow>
               (case to_bytes1 v of
                  Inl e \<Rightarrow> Some (Inl e, w1)
                | Inr b \<Rightarrow>
                    if b \<noteq> [0] then
                      (case write_bytes h s m [0] (verbose s) (emit (Sleep_ms 50) w1) of
                         None \<Rightarrow> None
                       | Some (Inl e, w2) \<Rightarrow> Some (Inl e, w2)
                       | Some (Inr _, w2) \<Rightarrow> exit_wait h s m w2)
                    else Some (Inr (), w1))))"

text \<open>
  \<open>__exit__\<close>. The three arguments describe the exception of the body, if any; the
  method does not look at them. The first write goes to the literal address \<open>0x70\<close>.
\<close>

definition exit :: "hw \<Rightarrow> smbasic \<Rightarrow> exn option \<Rightarrow> world \<Rightarrow> ((exn + bool) \<times> smbasic \<times> world) option" where
  "exit h s exc w =
     (case (mux s, channel s) of
        (Some m, Some ch) \<Rightarrow>
          (case write_bytes h s 0x70 MUX_UNLOCK_REGISTER (verbose s) w of
             None \<Rightarrow> None
           | Some (Inl e, w1) \<Rightarrow> Some (Inl e, s, w1)
           | Some (Inr _, w1) \<Rightarrow>
               (case exit_wait h s m w1 of
                  None \<Rightarrow> None
                | Some (Inl e, w2) \<Rightarrow> Some (Inl e, s, w2)
                | Some (Inr _, w2) \<Rightarrow> (let (s', w3) = close s w2 in Some (Inr False, s', w3))))
      | _ \<Rightarrow> (let (s', w3) = close s w in Some (Inr False, s', w3)))"


subsection \<open>Observing a run\<close>

text \<open>The events that are transfers on the bus, and those that set the alarm.\<close>

fun is_transfer :: "event \<Rightarrow> bool" where
  "is_transfer (DevRead _ _ _) = True"
| "is_transfer (DevWrite _ _ _) = True"
| "is_transfer _ = False"

fun is_alarm :: "event \<Rightarrow> bool" where
  "is_alarm (Alarm _) = True"
| "is_alarm _ = False"

text \<open>
  What \<open>read_bytes\<close> hands to its caller for each answer of the hardware: the bytes read,
  or \<open>bytearray(number)\<close> after a timeout or an I/O error.
\<close>

definition read_value :: "int \<Rightarrow> byte list outcome \<Rightarrow> exn + byte list" where
  "read_value number oc =
     (case oc of Done bs \<Rightarrow> Inr bs | Hang \<Rightarrow> bytearray_zeros number | Fault \<Rightarrow> bytearray_zeros number)"

text \<open>The lines that the three parts of a transfer print.\<close>

definition select_log :: "int \<Rightarrow> bool \<Rightarrow> int \<Rightarrow> event list" where
  "select_log fd vb addr =
     (if vb then [Print (SelectingDevice addr)] else []) @ [Ioctl fd I2C_DEVICE (addr AND 0x7F)]"

definition read_log :: "smbasic \<Rightarrow> int \<Rightarrow> byte list outcome \<Rightarrow> event list" where
  "read_log s addr oc =
     (case oc of
        Done bs \<Rightarrow> if verbose s then [Print (ReadBytes bs)] else []
      | Hang \<Rightarrow> [Print (FailedReadBytes addr (mux s) (channel s))]
      | Fault \<Rightarrow> [Print (IOErrorReadBytes (mux s) (channel s))])"

definition write_log :: "smbasic \<Rightarrow> int \<Rightarrow> nat outcome \<Rightarrow> event list" where
  "write_log s addr oc =
     (case oc of
        Done n \<Rightarrow> []
      | Hang \<Rightarrow> [Print (FailedWriteBytes addr (mux s) (channel s))]
      | Fault \<Rightarrow> [Print (IOErrorWriteBytes (mux s) (channel s))])"

text \<open>
  The part of a trace that the devices on the bus can tell: each transfer with the slave
  address it went to, and each pause.
\<close>

datatype bus_op = BusWrite int "byte list" | BusRead int int "byte list outcome" | Pause nat

fun bus_op_of :: "event \<Rightarrow> bus_op list" where
  "bus_op_of (DevWrite a buf _) = [BusWrite a buf]"
| "bus_op_of (DevRead a n oc) = [BusRead a n oc]"
| "bus_op_of (Sleep_ms n) = [Pause n]"
| "bus_op_of _ = []"

definition bus_ops :: "event list \<Rightarrow> bus_op list" where
  "bus_ops evs = concat (map bus_op_of evs)"

text \<open>
  A run of failed polls at slave address \<open>a\<close>: each is a one-byte read, a pause of 50 ms
  and a write of \<open>buf\<close>.
\<close>

definition retries :: "int \<Rightarrow> byte list \<Rightarrow> byte list outcome list \<Rightarrow> bus_op list" where
  "retries a buf ocs = concat (map (\<lambda>oc. [BusRead a 1 oc, Pause 50, BusWrite a buf]) ocs)"

text \<open>What the \<open>j\<close>-th one-byte \<open>read_bytes\<close> from now on hands to its caller.\<close>

definition polled :: "hw \<Rightarrow> world \<Rightarrow> nat \<Rightarrow> exn + byte list" where
  "polled h w j = read_value 1 (clip_outcome 1 (read_res h (n_read w + j)))"

subsection \<open>Concrete hardware and sessions\<close>

text \<open>
  Hardware on which every bus number opens, every ioctl succeeds, every read gives the
  same answer and every write the same answer.
\<close>

definition hw_const :: "byte list outcome \<Rightarrow> nat outcome \<Rightarrow> hw" where
  "hw_const r x = \<lparr>ioctl_ok = (\<lambda>_. True), read_res = (\<lambda>_. r), write_res = (\<lambda>_. x), openable = (\<lambda>_. True)\<rparr>"

definition world0 :: world where
  "world0 = \<lparr>n_ioctl = 0, n_read = 0, n_write = 0, slave = 0, alarm = 0, trace = []\<rparr>"

text \<open>An open session on bus 1 without a mux.\<close>

definition session0 :: smbasic where
  "session0 = \<lparr>locked = False, mux = None, channel = None, verbose = False, device = Some 1\<rparr>"

text \<open>Hardware whose reads give one answer \<open>k\<close> times and another from then on.\<close>

definition hw_switch :: "nat \<Rightarrow> byte list outcome \<Rightarrow> byte list outcome \<Rightarrow> hw" where
  "hw_switch k r1 r2 =
     \<lparr>ioctl_ok = (\<lambda>_. True), read_res = (\<lambda>i. if i < k then r1 else r2), write_res = (\<lambda>_. Done 1),
      openable = (\<lambda>_. True)\<rparr>"

text \<open>Hardware on which every ioctl fails.\<close>

definition hw_refusing :: hw where
  "hw_refusing = \<lparr>ioctl_ok = (\<lambda>_. False), read_res = (\<lambda>_. Done [0]), write_res = (\<lambda>_. Done 1),
      openable = (\<lambda>_. True)\<rparr>"

text \<open>An open session on bus 1 behind the mux at \<open>m\<close>, on channel 2.\<close>

definition session_mux :: "int \<Rightarrow> smbasic" where
  "session_mux m = \<lparr>locked = False, mux = Some m, channel = Some [4], verbose = False, device = Some 1\<rparr>"


section \<open>Properties\<close>

subsection \<open>The advisory lock\<close>

text \<open>
  C7. On a session whose flag is clear, \<open>try_lock\<close> returns True and sets the flag; after
  any number \<open>n\<close> of further \<open>try_lock\<close> calls the session is unchanged and the next
  \<open>try_lock\<close> returns False; \<open>unlock\<close> clears the flag when it is set and changes nothing
  when it is clear; after the unlock, \<open>try_lock\<close> returns True again.
\<close>

theorem try_lock_once_until_unlock:
  "\<not> locked s \<Longrightarrow>
     try_lock s = (True, s\<lparr>locked := True\<rparr>)
   \<and> ((snd \<circ> try_lock) ^^ n) (s\<lparr>locked := True\<rparr>) = s\<lparr>locked := True\<rparr>
   \<and> try_lock (((snd \<circ> try_lock) ^^ n) (s\<lparr>locked := True\<rparr>)) = (False, s\<lparr>locked := True\<rparr>)
   \<and> unlock (s\<lparr>locked := True\<rparr>) = s
   \<and> unlock s = s
   \<and> try_lock (unlock (s\<lparr>locked := True\<rparr>)) = (True, s\<lparr>locked := True\<rparr>)"
proof -
  assume u: "\<not> locked s"
  let ?s1 = "s\<lparr>locked := True\<rparr>"
  have again: "try_lock ?s1 = (False, ?s1)"
    by (simp add: try_lock_def)
  have it: "((snd \<circ> try_lock) ^^ k) ?s1 = ?s1" for k
    by (induction k) (simp_all add: again)
  have released: "unlock ?s1 = s"
    using u by (simp add: unlock_def)
  show ?thesis
    using u it again released by (simp add: try_lock_def unlock_def)
qed

theorem try_lock_once_until_unlock_witness:
  "\<not> locked session0
   \<and> try_lock session0 = (True, session0\<lparr>locked := True\<rparr>)
   \<and> ((snd \<circ> try_lock) ^^ 3) (session0\<lparr>locked := True\<rparr>) = session0\<lparr>locked := True\<rparr>
   \<and> try_lock (((snd \<circ> try_lock) ^^ 3) (session0\<lparr>locked := True\<rparr>)) = (False, session0\<lparr>locked := True\<rparr>)
   \<and> unlock (session0\<lparr>locked := True\<rparr>) = session0
   \<and> unlock session0 = session0
   \<and> try_lock (unlock (session0\<lparr>locked := True\<rparr>)) = (True, session0\<lparr>locked := True\<rparr>)"
proof -
  have u: "\<not> locked session0" by (simp add: session0_def)
  show ?thesis using u try_lock_once_until_unlock [OF u, of 3] by blast
qed

subsection \<open>Construction\<close>

lemma shift1_small: "((2::int) ^ n < 256) = (n < 8)"
proof -
  have "(2::int) ^ n < 2 ^ 8 \<longleftrightarrow> n < 8"
    by (rule power_strict_increasing_iff) simp
  then show ?thesis by simp
qed

lemma channel_mask_cases:
  "channel_mask ch =
     (case ch of None \<Rightarrow> Inr None
      | Some c \<Rightarrow> if 0 \<le> c \<and> c < 8 then Inr (Some [word_of_int (push_bit (nat c) 1)]) else Inl ValueError)"
  by (auto simp add: channel_mask_def shift1_def bytearray1_def shift1_small split: option.splits)

lemma one_bit_byte: "k < 8 \<Longrightarrow> bit (2 ^ k :: byte) i \<longleftrightarrow> i = k"
  by (auto simp add: bit_simps)

lemma init_cases:
  "init h bus mx ch vb w =
     (if (mx = None) \<noteq> (ch = None) then (Inl (AssertionError []), w)
      else case channel_mask ch of Inl e \<Rightarrow> (Inl e, w)
        | Inr m \<Rightarrow> if openable h bus
             then (Inr \<lparr>locked = False, mux = mx, channel = m, verbose = vb, device = Some bus\<rparr>, emit (OpenDev bus) w)
             else (Inl OSError, w))"
  by (auto simp add: init_def open_bus_def split: sum.splits)

text \<open>
  C6. With exactly one of mux and channel given, \<open>__init__\<close> raises the AssertionError of
  its first statement (the configuration error) before anything else happens; with both
  or neither given it raises no AssertionError.
\<close>

theorem init_config_assertion:
  "((mx = None) \<noteq> (ch = None) \<longrightarrow> init h bus mx ch vb w = (Inl (AssertionError []), w))
   \<and> ((mx = None) = (ch = None) \<longrightarrow> fst (init h bus mx ch vb w) \<noteq> Inl (AssertionError msg))"
  by (auto simp add: init_cases channel_mask_cases split: option.splits)

theorem init_config_assertion_witness:
  "init (hw_const Hang Hang) 1 (Some 0x70) None False world0 = (Inl (AssertionError []), world0)
   \<and> init (hw_const Hang Hang) 1 None (Some 2) False world0 = (Inl (AssertionError []), world0)
   \<and> fst (init (hw_const Hang Hang) 1 None None False world0) \<noteq> Inl (AssertionError [])
   \<and> fst (init (hw_const Hang Hang) 1 (Some 0x70) (Some 2) False world0) \<noteq> Inl (AssertionError [])"
  using init_config_assertion [of "Some 0x70" None "hw_const Hang Hang" 1 False world0 "[]"]
    init_config_assertion [of None "Some 2" "hw_const Hang Hang" 1 False world0 "[]"]
    init_config_assertion [of None None "hw_const Hang Hang" 1 False world0 "[]"]
    init_config_assertion [of "Some 0x70" "Some 2" "hw_const Hang Hang" 1 False world0 "[]"]
  by simp

lemma exit_keeps_config:
  "exit h t exc w = Some (r, t', w') \<Longrightarrow> mux t' = mux t \<and> channel t' = channel t"
  by (auto simp add: exit_def close_def split: option.splits sum.splits prod.splits)

text \<open>
  C10. With a mux address and a channel below 0 or above 7, \<open>__init__\<close> raises ValueError
  where it builds the mask, before the device is opened. Hence a constructed session with
  a mux holds a mask of one byte, and that byte has exactly one bit set, the bit
  \<open>channel\<close>. No method changes the mux address or the mask afterwards.
\<close>

theorem init_channel_range:
  "(mx \<noteq> None \<and> ch = Some c \<and> (c < 0 \<or> 8 \<le> c) \<longrightarrow> init h bus mx ch vb w = (Inl ValueError, w))
   \<and> (init h bus mx ch vb w = (Inr s, w') \<and> mux s \<noteq> None \<longrightarrow>
        (\<exists>k b. k < 8 \<and> ch = Some (int k) \<and> channel s = Some [b] \<and> (\<forall>i. bit b i \<longleftrightarrow> i = k)))
   \<and> (mux (snd (try_lock t)) = mux t \<and> channel (snd (try_lock t)) = channel t
        \<and> mux (unlock t) = mux t \<and> channel (unlock t) = channel t
        \<and> mux (fst (close t v)) = mux t \<and> channel (fst (close t v)) = channel t
        \<and> mux (fst (snd (open_bus h t bus v))) = mux t \<and> channel (fst (snd (open_bus h t bus v))) = channel t
        \<and> (exit h t exc v = Some (r, t', v') \<longrightarrow> mux t' = mux t \<and> channel t' = channel t))"
proof (intro conjI impI)
  assume "mx \<noteq> None \<and> ch = Some c \<and> (c < 0 \<or> 8 \<le> c)"
  then show "init h bus mx ch vb w = (Inl ValueError, w)"
    by (auto simp add: init_cases channel_mask_cases)
next
  assume a: "init h bus mx ch vb w = (Inr s, w') \<and> mux s \<noteq> None"
  then obtain c where c: "ch = Some c" "0 \<le> c" "c < 8"
    and s: "channel s = Some [word_of_int (push_bit (nat c) 1)]"
    by (auto simp add: init_cases channel_mask_cases split: option.splits if_splits)
  have "nat c < 8" using c by simp
  then have "\<forall>i. bit (word_of_int (push_bit (nat c) 1) :: byte) i \<longleftrightarrow> i = nat c"
    by (simp add: one_bit_byte)
  then show "\<exists>k b. k < 8 \<and> ch = Some (int k) \<and> channel s = Some [b] \<and> (\<forall>i. bit b i \<longleftrightarrow> i = k)"
    using c s by (intro exI [of _ "nat c"] exI [of _ "word_of_int (push_bit (nat c) 1)"]) simp
next
  assume "exit h t exc v = Some (r, t', v')"
  then show "mux t' = mux t" and "channel t' = channel t"
    by (simp_all add: exit_keeps_config)
qed (simp_all add: try_lock_def unlock_def close_def open_bus_def split: option.splits)

theorem init_channel_range_witness:
  "init (hw_const Hang Hang) 1 (Some 0x70) (Some 8) False world0 = (Inl ValueError, world0)
   \<and> init (hw_const Hang Hang) 1 (Some 0x70) (Some (- 1)) False world0 = (Inl ValueError, world0)
   \<and> init (hw_const Hang Hang) 1 (Some 0x70) (Some 2) False world0 =
       (Inr \<lparr>locked = False, mux = Some 0x70, channel = Some [4], verbose = False, device = Some 1\<rparr>,
        emit (OpenDev 1) world0)
   \<and> (\<exists>k b. k < 8 \<and> Some (2::int) = Some (int k) \<and> Some [4::byte] = Some [b] \<and> (\<forall>i. bit b i \<longleftrightarrow> i = k))"
proof -
  let ?s = "\<lparr>locked = False, mux = Some 0x70, channel = Some [4], verbose = False, device = Some 1\<rparr>"
  have ok: "init (hw_const Hang Hang) 1 (Some 0x70) (Some 2) False world0 = (Inr ?s, emit (OpenDev 1) world0)"
    by (simp add: init_cases channel_mask_cases hw_const_def)
  show ?thesis
    using ok
      init_channel_range [where mx = "Some 0x70" and ch = "Some 8" and c = 8 and h = "hw_const Hang Hang"
        and bus = 1 and vb = False and w = world0]
      init_channel_range [where mx = "Some 0x70" and ch = "Some (- 1)" and c = "- 1" and h = "hw_const Hang Hang"
        and bus = 1 and vb = False and w = world0]
      init_channel_range [where mx = "Some 0x70" and ch = "Some 2" and c = 2 and h = "hw_const Hang Hang"
        and bus = 1 and vb = False and w = world0 and s = ?s and w' = "emit (OpenDev 1) world0"]
    by simp
qed

subsection \<open>Operations on a closed session\<close>

text \<open>
  C5. When \<open>__init__\<close> succeeds on a bus, the device is open; after \<open>close\<close> the device is
  None, and from then on \<open>read_bytes\<close> and \<open>write_bytes\<close> raise the AssertionError
  "Bus must be opened before operations are made against it!" in any world and on any
  hardware, and leave the world as it was: nothing is selected or transferred.
\<close>

theorem closed_session_not_open:
  "init h bus mx ch vb w = (Inr s, w1) \<Longrightarrow>
     device s = Some bus
   \<and> device (fst (close s w2)) = None
   \<and> read_bytes h' (fst (close s w2)) addr number w3 = Some (Inl (AssertionError not_open_msg), w3)
   \<and> write_bytes h' (fst (close s w2)) addr buf vb' w3 = Some (Inl (AssertionError not_open_msg), w3)"
  by (auto simp add: init_cases close_def read_bytes_def write_bytes_def split: sum.splits if_splits)

theorem closed_session_not_open_witness:
  "init (hw_const Hang Hang) 1 None None False world0 = (Inr session0, emit (OpenDev 1) world0)
   \<and> device session0 = Some 1
   \<and> device (fst (close session0 (emit (OpenDev 1) world0))) = None
   \<and> read_bytes (hw_const Hang Hang) (fst (close session0 (emit (OpenDev 1) world0))) 0x40 1 world0
       = Some (Inl (AssertionError not_open_msg), world0)
   \<and> write_bytes (hw_const Hang Hang) (fst (close session0 (emit (OpenDev 1) world0))) 0x40 [1] False world0
       = Some (Inl (AssertionError not_open_msg), world0)"
proof -
  have ok: "init (hw_const Hang Hang) 1 None None False world0 = (Inr session0, emit (OpenDev 1) world0)"
    by (simp add: init_cases channel_mask_cases hw_const_def session0_def)
  show ?thesis
    using ok closed_session_not_open [OF ok, of "emit (OpenDev 1) world0" "hw_const Hang Hang" "0x40" 1 world0 "[1]" False]
    by simp
qed

subsection \<open>The timed transfers\<close>

lemma select_device_open:
  "device s = Some fd \<Longrightarrow>
     select_device h s addr vb w =
       (if ioctl_ok h (n_ioctl w)
        then (Inr (), w\<lparr>n_ioctl := Suc (n_ioctl w), slave := addr AND 0x7F, trace := trace w @ select_log fd vb addr\<rparr>)
        else (Inl OSError, w\<lparr>n_ioctl := Suc (n_ioctl w), trace := trace w @ select_log fd vb addr\<rparr>))"
  by (simp add: select_device_def select_log_def emit_def Let_def)

lemma read_bytes_refused:
  "device s = Some fd \<Longrightarrow> \<not> ioctl_ok h (n_ioctl w) \<Longrightarrow>
     read_bytes h s addr number w =
       Some (Inl OSError, w\<lparr>n_ioctl := Suc (n_ioctl w), trace := trace w @ select_log fd (verbose s) addr\<rparr>)"
  by (simp add: read_bytes_def select_device_open)

lemma read_bytes_selected:
  assumes "device s = Some fd" and "ioctl_ok h (n_ioctl w)"
  shows "read_bytes h s addr number w =
     Some (read_value number (clip_outcome number (read_res h (n_read w))),
           w\<lparr>n_ioctl := Suc (n_ioctl w), n_read := Suc (n_read w), slave := addr AND 0x7F, alarm := 0,
             trace := trace w @ select_log fd (verbose s) addr
               @ [SigHandler, Alarm I2C_TIMEOUT, DevRead (addr AND 0x7F) number (clip_outcome number (read_res h (n_read w)))]
               @ read_log s addr (clip_outcome number (read_res h (n_read w))) @ [Alarm 0]\<rparr>)"
  using assms
  by (cases "read_res h (n_read w)")
     (simp_all add: read_bytes_def select_device_open dev_read_def blocking_def set_alarm_def emit_def
        clip_outcome_def read_value_def read_log_def I2C_TIMEOUT_def Let_def)

lemma write_bytes_refused:
  "device s = Some fd \<Longrightarrow> \<not> ioctl_ok h (n_ioctl w) \<Longrightarrow>
     write_bytes h s addr buf vb w =
       Some (Inl OSError, w\<lparr>n_ioctl := Suc (n_ioctl w), trace := trace w @ select_log fd vb addr\<rparr>)"
  by (simp add: write_bytes_def select_device_open)

lemma write_bytes_selected:
  assumes "device s = Some fd" and "ioctl_ok h (n_ioctl w)"
  shows "write_bytes h s addr buf vb w =
     Some (Inr (),
           w\<lparr>n_ioctl := Suc (n_ioctl w), n_write := Suc (n_write w), slave := addr AND 0x7F, alarm := 0,
             trace := trace w @ select_log fd vb addr @ (if vb then [Print (WritingBytes buf)] else [])
               @ [SigHandler, Alarm I2C_TIMEOUT, DevWrite (addr AND 0x7F) buf (write_res h (n_write w))]
               @ write_log s addr (write_res h (n_write w)) @ [Alarm 0]\<rparr>)"
  using assms
  by (cases "write_res h (n_write w)")
     (simp_all add: write_bytes_def select_device_open dev_write_def blocking_def set_alarm_def emit_def
        write_log_def I2C_TIMEOUT_def Let_def)

lemma select_log_quiet: "e \<in> set (select_log fd vb addr) \<Longrightarrow> \<not> is_transfer e \<and> \<not> is_alarm e"
  by (auto simp add: select_log_def split: if_splits)

lemma read_log_quiet: "e \<in> set (read_log s addr oc) \<Longrightarrow> \<not> is_transfer e \<and> \<not> is_alarm e"
  by (auto simp add: read_log_def split: outcome.splits if_splits)

lemma write_log_quiet: "e \<in> set (write_log s addr oc) \<Longrightarrow> \<not> is_transfer e \<and> \<not> is_alarm e"
  by (auto simp add: write_log_def split: outcome.splits if_splits)

text \<open>
  C1. On an open session whose device selection succeeded: when the hardware never
  answers the transfer (the alarm fires and raises TimeoutException) or the transfer
  ends in an OSError, \<open>read_bytes\<close> with a count of at least zero returns that many zero
  bytes and \<open>write_bytes\<close> returns None, neither raises, and each has printed its
  diagnostic line.
\<close>

theorem transfer_failure_masked:
  assumes "device s \<noteq> None" and "ioctl_ok h (n_ioctl w)"
  shows
    "(read_res h (n_read w) = Hang \<and> 0 \<le> number \<longrightarrow>
        (\<exists>w' evs. read_bytes h s addr number w = Some (Inr (replicate (nat number) 0), w')
           \<and> trace w' = trace w @ evs \<and> Print (FailedReadBytes addr (mux s) (channel s)) \<in> set evs))
     \<and> (read_res h (n_read w) = Fault \<and> 0 \<le> number \<longrightarrow>
        (\<exists>w' evs. read_bytes h s addr number w = Some (Inr (replicate (nat number) 0), w')
           \<and> trace w' = trace w @ evs \<and> Print (IOErrorReadBytes (mux s) (channel s)) \<in> set evs))
     \<and> (write_res h (n_write w) = Hang \<longrightarrow>
        (\<exists>w' evs. write_bytes h s addr buf vb w = Some (Inr (), w')
           \<and> trace w' = trace w @ evs \<and> Print (FailedWriteBytes addr (mux s) (channel s)) \<in> set evs))
     \<and> (write_res h (n_write w) = Fault \<longrightarrow>
        (\<exists>w' evs. write_bytes h s addr buf vb w = Some (Inr (), w')
           \<and> trace w' = trace w @ evs \<and> Print (IOErrorWriteBytes (mux s) (channel s)) \<in> set evs))"
proof -
  from assms obtain fd where fd: "device s = Some fd" by auto
  note rd = read_bytes_selected [OF fd assms(2), of addr number]
  note wr = write_bytes_selected [OF fd assms(2), of addr buf vb]
  show ?thesis
  proof (intro conjI impI)
    assume "read_res h (n_read w) = Hang \<and> 0 \<le> number"
    then show "\<exists>w' evs. read_bytes h s addr number w = Some (Inr (replicate (nat number) 0), w')
           \<and> trace w' = trace w @ evs \<and> Print (FailedReadBytes addr (mux s) (channel s)) \<in> set evs"
      by (simp add: rd clip_outcome_def read_value_def read_log_def bytearray_zeros_def)
  next
    assume "read_res h (n_read w) = Fault \<and> 0 \<le> number"
    then show "\<exists>w' evs. read_bytes h s addr number w = Some (Inr (replicate (nat number) 0), w')
           \<and> trace w' = trace w @ evs \<and> Print (IOErrorReadBytes (mux s) (channel s)) \<in> set evs"
      by (simp add: rd clip_outcome_def read_value_def read_log_def bytearray_zeros_def)
  next
    assume "write_res h (n_write w) = Hang"
    then show "\<exists>w' evs. write_bytes h s addr buf vb w = Some (Inr (), w')
           \<and> trace w' = trace w @ evs \<and> Print (FailedWriteBytes addr (mux s) (channel s)) \<in> set evs"
      by (simp add: wr write_log_def)
  next
    assume "write_res h (n_write w) = Fault"
    then show "\<exists>w' evs. write_bytes h s addr buf vb w = Some (Inr (), w')
           \<and> trace w' = trace w @ evs \<and> Print (IOErrorWriteBytes (mux s) (channel s)) \<in> set evs"
      by (simp add: wr write_log_def)
  qed
qed

theorem transfer_failure_masked_witness:
  "device session0 \<noteq> None
   \<and> ioctl_ok (hw_const Hang Hang) (n_ioctl world0)
   \<and> read_res (hw_const Hang Hang) (n_read world0) = Hang
   \<and> write_res (hw_const Hang Hang) (n_write world0) = Hang
   \<and> read_res (hw_const Fault Fault) (n_read world0) = Fault
   \<and> write_res (hw_const Fault Fault) (n_write world0) = Fault
   \<and> (\<exists>w' evs. read_bytes (hw_const Hang Hang) session0 0x40 3 world0 = Some (Inr [0, 0, 0], w')
         \<and> trace w' = trace world0 @ evs \<and> Print (FailedReadBytes 0x40 None None) \<in> set evs)
   \<and> (\<exists>w' evs. read_bytes (hw_const Fault Fault) session0 0x40 3 world0 = Some (Inr [0, 0, 0], w')
         \<and> trace w' = trace world0 @ evs \<and> Print (IOErrorReadBytes None None) \<in> set evs)
   \<and> (\<exists>w' evs. write_bytes (hw_const Hang Hang) session0 0x40 [1] False world0 = Some (Inr (), w')
         \<and> trace w' = trace world0 @ evs \<and> Print (FailedWriteBytes 0x40 None None) \<in> set evs)
   \<and> (\<exists>w' evs. write_bytes (hw_const Fault Fault) session0 0x40 [1] False world0 = Some (Inr (), w')
         \<and> trace w' = trace world0 @ evs \<and> Print (IOErrorWriteBytes None None) \<in> set evs)"
proof -
  have d: "device session0 \<noteq> None" by (simp add: session0_def)
  have i1: "ioctl_ok (hw_const Hang Hang) (n_ioctl world0)" by (simp add: hw_const_def)
  have i2: "ioctl_ok (hw_const Fault Fault) (n_ioctl world0)" by (simp add: hw_const_def)
  have m: "mux session0 = None" "channel session0 = None" by (simp_all add: session0_def)
  have r3: "replicate 3 (0::byte) = [0, 0, 0]" by (simp add: numeral_3_eq_3)
  show ?thesis
    using d i1 i2
      transfer_failure_masked [OF d i1, of 3 "0x40" "[1]" False]
      transfer_failure_masked [OF d i2, of 3 "0x40" "[1]" False]
    by (simp add: hw_const_def m r3)
qed

text \<open>
  C8. On an open session \<open>read_bytes\<close> and \<open>write_bytes\<close> always come to an end. When
  the device selection succeeded, the events of the call hold exactly one transfer, the
  event just before it arms the alarm with the timeout, the last event of the call
  cancels the alarm, nothing else touches the alarm, and no alarm is pending afterwards,
  whatever the transfer did. When the selection failed, the call neither transfers nor
  touches the alarm.
\<close>

theorem alarm_scoped:
  assumes "device s \<noteq> None"
  shows
    "(\<exists>r w' evs. read_bytes h s addr number w = Some (r, w') \<and> trace w' = trace w @ evs \<and>
        (if ioctl_ok h (n_ioctl w)
         then alarm w' = 0 \<and>
              (\<exists>pre x post. evs = pre @ [Alarm I2C_TIMEOUT, x] @ post @ [Alarm 0] \<and> is_transfer x
                 \<and> \<not> (\<exists>e \<in> set (pre @ post). is_transfer e \<or> is_alarm e))
         else alarm w' = alarm w \<and> \<not> (\<exists>e \<in> set evs. is_transfer e \<or> is_alarm e)))
     \<and> (\<exists>r w' evs. write_bytes h s addr buf vb w = Some (r, w') \<and> trace w' = trace w @ evs \<and>
        (if ioctl_ok h (n_ioctl w)
         then alarm w' = 0 \<and>
              (\<exists>pre x post. evs = pre @ [Alarm I2C_TIMEOUT, x] @ post @ [Alarm 0] \<and> is_transfer x
                 \<and> \<not> (\<exists>e \<in> set (pre @ post). is_transfer e \<or> is_alarm e))
         else alarm w' = alarm w \<and> \<not> (\<exists>e \<in> set evs. is_transfer e \<or> is_alarm e)))"
proof -
  from assms obtain fd where fd: "device s = Some fd" by auto
  show ?thesis
  proof (cases "ioctl_ok h (n_ioctl w)")
    case False
    have q: "\<not> (\<exists>e \<in> set (select_log fd b addr). is_transfer e \<or> is_alarm e)" for b
      using select_log_quiet by blast
    show ?thesis
      using False q by (simp add: read_bytes_refused [OF fd] write_bytes_refused [OF fd])
  next
    case True
    let ?oc = "clip_outcome number (read_res h (n_read w))"
    let ?pre = "select_log fd (verbose s) addr @ [SigHandler]"
    let ?wpre = "select_log fd vb addr @ (if vb then [Print (WritingBytes buf)] else []) @ [SigHandler]"
    have r1: "\<not> (\<exists>e \<in> set (?pre @ read_log s addr ?oc). is_transfer e \<or> is_alarm e)"
      using select_log_quiet read_log_quiet by fastforce
    have w1: "\<not> (\<exists>e \<in> set (?wpre @ write_log s addr (write_res h (n_write w))). is_transfer e \<or> is_alarm e)"
      using select_log_quiet write_log_quiet by fastforce
    have rd: "\<exists>pre x post. select_log fd (verbose s) addr
               @ [SigHandler, Alarm I2C_TIMEOUT, DevRead (addr AND 0x7F) number ?oc]
               @ read_log s addr ?oc @ [Alarm 0] = pre @ [Alarm I2C_TIMEOUT, x] @ post @ [Alarm 0] \<and> is_transfer x
                 \<and> \<not> (\<exists>e \<in> set (pre @ post). is_transfer e \<or> is_alarm e)"
      using r1
      by (intro exI [of _ ?pre] exI [of _ "DevRead (addr AND 0x7F) number ?oc"] exI [of _ "read_log s addr ?oc"]) simp
    have wr: "\<exists>pre x post. select_log fd vb addr @ (if vb then [Print (WritingBytes buf)] else [])
               @ [SigHandler, Alarm I2C_TIMEOUT, DevWrite (addr AND 0x7F) buf (write_res h (n_write w))]
               @ write_log s addr (write_res h (n_write w)) @ [Alarm 0] = pre @ [Alarm I2C_TIMEOUT, x] @ post @ [Alarm 0] \<and> is_transfer x
                 \<and> \<not> (\<exists>e \<in> set (pre @ post). is_transfer e \<or> is_alarm e)"
      using w1
      by (intro exI [of _ ?wpre] exI [of _ "DevWrite (addr AND 0x7F) buf (write_res h (n_write w))"]
            exI [of _ "write_log s addr (write_res h (n_write w))"]) simp
    show ?thesis
      using True rd wr
      by (simp add: read_bytes_selected [OF fd True] write_bytes_selected [OF fd True])
  qed
qed

theorem alarm_scoped_witness:
  "device session0 \<noteq> None
   \<and> (\<exists>r w' evs. read_bytes (hw_const Hang Hang) session0 0x40 1 world0 = Some (r, w')
         \<and> trace w' = trace world0 @ evs \<and> alarm w' = 0
         \<and> (\<exists>pre x post. evs = pre @ [Alarm I2C_TIMEOUT, x] @ post @ [Alarm 0] \<and> is_transfer x
               \<and> \<not> (\<exists>e \<in> set (pre @ post). is_transfer e \<or> is_alarm e)))
   \<and> (\<exists>r w' evs. write_bytes (hw_const Hang Hang) session0 0x40 [1] False world0 = Some (r, w')
         \<and> trace w' = trace world0 @ evs \<and> alarm w' = 0
         \<and> (\<exists>pre x post. evs = pre @ [Alarm I2C_TIMEOUT, x] @ post @ [Alarm 0] \<and> is_transfer x
               \<and> \<not> (\<exists>e \<in> set (pre @ post). is_transfer e \<or> is_alarm e)))"
proof -
  have d: "device session0 \<noteq> None" by (simp add: session0_def)
  have i1: "ioctl_ok (hw_const Hang Hang) (n_ioctl world0)" by (simp add: hw_const_def)
  show ?thesis
    using d i1 alarm_scoped [OF d, of "hw_const Hang Hang" "0x40" 1 world0 "[1]" False]
    by simp
qed

subsection \<open>What a transfer does on the bus\<close>

lemma bus_ops_append [simp]: "bus_ops (xs @ ys) = bus_ops xs @ bus_ops ys"
  by (simp add: bus_ops_def)

lemma bus_ops_Nil [simp]: "bus_ops [] = []"
  by (simp add: bus_ops_def)

lemma bus_ops_Cons [simp]: "bus_ops (e # es) = bus_op_of e @ bus_ops es"
  by (simp add: bus_ops_def)

lemma bus_ops_select_log [simp]: "bus_ops (select_log fd vb addr) = []"
  by (simp add: select_log_def)

lemma bus_ops_read_log [simp]: "bus_ops (read_log s addr oc) = []"
  by (simp add: read_log_def split: outcome.splits)

lemma bus_ops_write_log [simp]: "bus_ops (write_log s addr oc) = []"
  by (simp add: write_log_def split: outcome.splits)

lemma retries_Cons: "retries a buf (oc # ocs) = [BusRead a 1 oc, Pause 50, BusWrite a buf] @ retries a buf ocs"
  by (simp add: retries_def)

lemma read_bytes_returns:
  assumes "read_bytes h s addr number w = Some (Inr r, w1)"
  obtains fd where "device s = Some fd" and "ioctl_ok h (n_ioctl w)"
proof (cases "device s")
  case None
  with assms show ?thesis by (simp add: read_bytes_def)
next
  case (Some fd)
  with assms have "ioctl_ok h (n_ioctl w)"
    by (cases "ioctl_ok h (n_ioctl w)") (simp_all add: read_bytes_refused)
  with Some that show ?thesis by blast
qed

lemma write_bytes_returns:
  assumes "write_bytes h s addr buf vb w = Some (Inr u, w1)"
  obtains fd where "device s = Some fd" and "ioctl_ok h (n_ioctl w)"
proof (cases "device s")
  case None
  with assms show ?thesis by (simp add: write_bytes_def)
next
  case (Some fd)
  with assms have "ioctl_ok h (n_ioctl w)"
    by (cases "ioctl_ok h (n_ioctl w)") (simp_all add: write_bytes_refused)
  with Some that show ?thesis by blast
qed

text \<open>What one poll and one retry do to the bus.\<close>

lemma read_bytes_bus:
  assumes "read_bytes h s addr number w = Some (Inr r, w1)"
  shows "read_value number (clip_outcome number (read_res h (n_read w))) = Inr r
     \<and> bus_ops (trace w1) = bus_ops (trace w) @ [BusRead (addr AND 0x7F) number (clip_outcome number (read_res h (n_read w)))]"
proof -
  from assms obtain fd where fd: "device s = Some fd" and ok: "ioctl_ok h (n_ioctl w)"
    by (rule read_bytes_returns)
  show ?thesis
    using assms by (auto simp add: read_bytes_selected [OF fd ok])
qed

lemma write_bytes_bus:
  assumes "write_bytes h s addr buf vb w = Some (Inr u, w1)"
  shows "bus_ops (trace w1) = bus_ops (trace w) @ [BusWrite (addr AND 0x7F) buf]"
proof -
  from assms obtain fd where fd: "device s = Some fd" and ok: "ioctl_ok h (n_ioctl w)"
    by (rule write_bytes_returns)
  show ?thesis
    using assms by (auto simp add: write_bytes_selected [OF fd ok])
qed

lemma ord_to_bytes:
  assumes "py_ord r = Inr v" and "to_bytes1 v = Inr b"
  shows "b = r \<and> length r = 1"
  using assms by (auto simp add: py_ord_def to_bytes1_def split: list.splits if_splits)

lemma ord_to_bytes_one: "py_ord [x] = Inr (uint x) \<and> to_bytes1 (uint x) = Inr [x]"
proof -
  have "uint x < 256" using uint_bounded [of x] by simp
  then show ?thesis by (simp add: py_ord_def to_bytes1_def)
qed

lemma emit_counters [simp]:
  "n_ioctl (emit e w) = n_ioctl w" "n_read (emit e w) = n_read w" "n_write (emit e w) = n_write w"
  "alarm (emit e w) = alarm w" "slave (emit e w) = slave w" "trace (emit e w) = trace w @ [e]"
  by (simp_all add: emit_def)

lemma read_bytes_poll:
  assumes "device s = Some fd" and "ioctl_ok h (n_ioctl w)"
  shows "\<exists>w1. read_bytes h s addr 1 w = Some (polled h w 0, w1)
           \<and> n_ioctl w1 = Suc (n_ioctl w) \<and> n_read w1 = Suc (n_read w)"
  by (simp add: read_bytes_selected [OF assms] polled_def)

lemma write_bytes_retry:
  assumes "device s = Some fd" and "ioctl_ok h (n_ioctl w)"
  shows "\<exists>w2. write_bytes h s addr buf vb w = Some (Inr (), w2)
           \<and> n_ioctl w2 = Suc (n_ioctl w) \<and> n_read w2 = n_read w"
  by (simp add: write_bytes_selected [OF assms])

lemma polled_shift: "n_read w2 = Suc (n_read w) \<Longrightarrow> polled h w2 j = polled h w (Suc j)"
  by (simp add: polled_def)

lemma read_bytes_trace:
  assumes "read_bytes h s addr number w = Some (res, w1)"
  shows "\<exists>evs. trace w1 = trace w @ evs"
proof (cases "device s")
  case None
  with assms show ?thesis by (simp add: read_bytes_def)
next
  case (Some fd)
  with assms show ?thesis
    by (cases "ioctl_ok h (n_ioctl w)") (auto simp add: read_bytes_selected read_bytes_refused)
qed

lemma write_bytes_trace:
  assumes "write_bytes h s addr buf vb w = Some (res, w1)"
  shows "\<exists>evs. trace w1 = trace w @ evs"
proof (cases "device s")
  case None
  with assms show ?thesis by (simp add: write_bytes_def)
next
  case (Some fd)
  with assms show ?thesis
    by (cases "ioctl_ok h (n_ioctl w)") (auto simp add: write_bytes_selected write_bytes_refused)
qed

subsection \<open>The loop of entry\<close>

lemma enter_wait_shape:
  "enter_wait h s m ch w = Some y \<Longrightarrow>
     \<forall>w'. y = (Inr (), w') \<longrightarrow>
       (\<exists>ocs oc. bus_ops (trace w') = bus_ops (trace w) @ retries (m AND 0x7F) ch ocs @ [BusRead (m AND 0x7F) 1 oc]
          \<and> (\<forall>q \<in> set ocs. read_value 1 q \<noteq> Inr ch) \<and> read_value 1 oc = Inr ch)"
proof (erule enter_wait.raw_induct [rotated])
  fix f :: "hw \<Rightarrow> smbasic \<Rightarrow> int \<Rightarrow> byte list \<Rightarrow> world \<Rightarrow> ((exn + unit) \<times> world) option"
    and h s m ch w y
  assume IH: "\<And>h s m ch w y. f h s m ch w = Some y \<Longrightarrow>
     \<forall>w'. y = (Inr (), w') \<longrightarrow>
       (\<exists>ocs oc. bus_ops (trace w') = bus_ops (trace w) @ retries (m AND 0x7F) ch ocs @ [BusRead (m AND 0x7F) 1 oc]
          \<and> (\<forall>q \<in> set ocs. read_value 1 q \<noteq> Inr ch) \<and> read_value 1 oc = Inr ch)"
  assume body: "(case read_bytes h s m 1 w of
        None \<Rightarrow> None
      | Some (Inl e, w1) \<Rightarrow> Some (Inl e, w1)
      | Some (Inr r, w1) \<Rightarrow>
          (case py_ord r of
             Inl e \<Rightarrow> Some (Inl e, w1)
           | Inr v \<Rightarrow>
               (case to_bytes1 v of
                  Inl e \<Rightarrow> Some (Inl e, w1)
                | Inr b \<Rightarrow>
                    if b \<noteq> ch then
                      (case write_bytes h s m ch (verbose s) (emit (Sleep_ms 50) w1) of
                         None \<Rightarrow> None
                       | Some (Inl e, w2) \<Rightarrow> Some (Inl e, w2)
                       | Some (Inr _, w2) \<Rightarrow> f h s m ch w2)
                    else Some (Inr (), w1)))) = Some y"
  let ?a = "m AND 0x7F"
  let ?oc = "clip_outcome 1 (read_res h (n_read w))"
  show "\<forall>w'. y = (Inr (), w') \<longrightarrow>
       (\<exists>ocs oc. bus_ops (trace w') = bus_ops (trace w) @ retries ?a ch ocs @ [BusRead ?a 1 oc]
          \<and> (\<forall>q \<in> set ocs. read_value 1 q \<noteq> Inr ch) \<and> read_value 1 oc = Inr ch)"
  proof (intro allI impI)
    fix w'
    assume y: "y = (Inr (), w')"
    from body obtain res w1 where rd0: "read_bytes h s m 1 w = Some (res, w1)"
      by (cases "read_bytes h s m 1 w") auto
    from body y rd0 obtain r where r: "res = Inr r"
      by (cases res) auto
    from body y rd0 r obtain v where v: "py_ord r = Inr v"
      by (cases "py_ord r") auto
    from body y rd0 r v obtain b where b: "to_bytes1 v = Inr b"
      by (cases "to_bytes1 v") auto
    from rd0 r have rd: "read_bytes h s m 1 w = Some (Inr r, w1)"
      by simp
    from body y rd v b have rest: "(if b \<noteq> ch then
                      (case write_bytes h s m ch (verbose s) (emit (Sleep_ms 50) w1) of
                         None \<Rightarrow> None
                       | Some (Inl e, w2) \<Rightarrow> Some (Inl e, w2)
                       | Some (Inr _, w2) \<Rightarrow> f h s m ch w2)
                    else Some (Inr (), w1)) = Some (Inr (), w')"
      by simp
    from v b have br: "b = r" by (simp add: ord_to_bytes)
    from read_bytes_bus [OF rd] have val: "read_value 1 ?oc = Inr r"
      and tr1: "bus_ops (trace w1) = bus_ops (trace w) @ [BusRead ?a 1 ?oc]"
      by simp_all
    show "\<exists>ocs oc. bus_ops (trace w') = bus_ops (trace w) @ retries ?a ch ocs @ [BusRead ?a 1 oc]
          \<and> (\<forall>q \<in> set ocs. read_value 1 q \<noteq> Inr ch) \<and> read_value 1 oc = Inr ch"
    proof (cases "b = ch")
      case True
      with rest have "w' = w1" by simp
      with tr1 val br True show ?thesis
        by (intro exI [of _ "[]"] exI [of _ ?oc]) (simp add: retries_def)
    next
      case False
      with rest obtain u w2 where wr: "write_bytes h s m ch (verbose s) (emit (Sleep_ms 50) w1) = Some (Inr u, w2)"
        and again: "f h s m ch w2 = Some (Inr (), w')"
        by (auto split: option.splits sum.splits)
      from write_bytes_bus [OF wr] tr1
      have tr2: "bus_ops (trace w2) = bus_ops (trace w) @ [BusRead ?a 1 ?oc, Pause 50, BusWrite ?a ch]"
        by (simp add: emit_def)
      from IH [OF again] obtain ocs oc where
        tr3: "bus_ops (trace w') = bus_ops (trace w2) @ retries ?a ch ocs @ [BusRead ?a 1 oc]"
        and miss: "\<forall>q \<in> set ocs. read_value 1 q \<noteq> Inr ch" and hit: "read_value 1 oc = Inr ch"
        by blast
      from False br val have "read_value 1 ?oc \<noteq> Inr ch" by simp
      with tr2 tr3 miss hit show ?thesis
        by (intro exI [of _ "?oc # ocs"] exI [of _ oc]) (simp add: retries_Cons)
    qed
  qed
qed

lemma enter_wait_completes:
  assumes fd: "device s = Some fd" and len: "length ch = 1"
  shows "\<forall>i \<ge> n_ioctl w. ioctl_ok h i \<Longrightarrow>
         \<forall>j < k. \<exists>b. polled h w j = Inr [b] \<and> [b] \<noteq> ch \<Longrightarrow>
         polled h w k = Inr ch \<Longrightarrow>
         \<exists>w'. enter_wait h s m ch w = Some (Inr (), w') \<and> n_read w' = n_read w + Suc k"
proof (induction k arbitrary: w)
  case 0
  from 0 have ok: "ioctl_ok h (n_ioctl w)" by simp
  from read_bytes_poll [OF fd ok, of m] 0(3) obtain w1 where
    rd: "read_bytes h s m 1 w = Some (Inr ch, w1)" and n1: "n_read w1 = Suc (n_read w)"
    by auto
  from len obtain x where ch: "ch = [x]" by (cases ch) auto
  have "enter_wait h s m ch w = Some (Inr (), w1)"
    by (subst enter_wait.simps) (simp add: rd ch ord_to_bytes_one)
  with n1 show ?case by simp
next
  case (Suc k)
  from Suc.prems have ok: "ioctl_ok h (n_ioctl w)" by simp
  from Suc.prems(2) obtain b where b: "polled h w 0 = Inr [b]" and ne: "[b] \<noteq> ch" by auto
  from read_bytes_poll [OF fd ok, of m] b obtain w1 where
    rd: "read_bytes h s m 1 w = Some (Inr [b], w1)"
    and i1: "n_ioctl w1 = Suc (n_ioctl w)" and n1: "n_read w1 = Suc (n_read w)"
    by auto
  from Suc.prems(1) i1 have ok1: "ioctl_ok h (n_ioctl (emit (Sleep_ms 50) w1))" by simp
  from write_bytes_retry [OF fd ok1, of m ch "verbose s"] obtain w2 where
    wr: "write_bytes h s m ch (verbose s) (emit (Sleep_ms 50) w1) = Some (Inr (), w2)"
    and i2: "n_ioctl w2 = Suc (n_ioctl (emit (Sleep_ms 50) w1))"
    and n2: "n_read w2 = n_read (emit (Sleep_ms 50) w1)"
    by auto
  from n1 n2 have n2': "n_read w2 = Suc (n_read w)" by simp
  have io2: "\<forall>i \<ge> n_ioctl w2. ioctl_ok h i" using Suc.prems(1) i1 i2 by simp
  have miss2: "\<forall>j < k. \<exists>b. polled h w2 j = Inr [b] \<and> [b] \<noteq> ch"
    using Suc.prems(2) by (simp add: polled_shift [OF n2'])
  have hit2: "polled h w2 k = Inr ch"
    using Suc.prems(3) by (simp add: polled_shift [OF n2'])
  from Suc.IH [OF io2 miss2 hit2] obtain w' where
    fin: "enter_wait h s m ch w2 = Some (Inr (), w')" and n': "n_read w' = n_read w2 + Suc k"
    by blast
  have "enter_wait h s m ch w = enter_wait h s m ch w2"
    by (subst enter_wait.simps) (simp add: rd wr ne ord_to_bytes_one)
  with fin n' n2' show ?case by simp
qed

text \<open>
  C3. For a session with mux address \<open>m\<close> and channel mask \<open>ch\<close>. When \<open>__enter__\<close>
  returns, it returns the session itself, and what it did on the bus is: one write of the
  mask to the mux address; then, for every one-byte read from the mux address that gave
  something else than the mask, a pause of 50 ms and another write of the mask; and last
  a one-byte read that gave the mask. Conversely, on an open session whose ioctls
  succeed, if the first \<open>k\<close> reads each give one byte that is not the mask and the next
  read gives the mask, \<open>__enter__\<close> returns, after exactly \<open>k + 1\<close> reads.
\<close>

theorem enter_locks_channel:
  assumes "mux s = Some m" and "channel s = Some ch"
  shows
    "(enter h s w = Some (Inr s', w') \<longrightarrow>
        s' = s \<and>
        (\<exists>ocs oc. bus_ops (trace w') =
             bus_ops (trace w) @ [BusWrite (m AND 0x7F) ch] @ retries (m AND 0x7F) ch ocs @ [BusRead (m AND 0x7F) 1 oc]
           \<and> (\<forall>q \<in> set ocs. read_value 1 q \<noteq> Inr ch) \<and> read_value 1 oc = Inr ch))
     \<and> (device s \<noteq> None \<and> length ch = 1 \<and> (\<forall>i \<ge> n_ioctl w. ioctl_ok h i)
          \<and> (\<forall>j < k. \<exists>b. polled h w j = Inr [b] \<and> [b] \<noteq> ch) \<and> polled h w k = Inr ch \<longrightarrow>
        (\<exists>w''. enter h s w = Some (Inr s, w'') \<and> n_read w'' = n_read w + Suc k))"
proof (rule conjI; rule impI)
  assume ret: "enter h s w = Some (Inr s', w')"
  from ret assms obtain u w1 where wr: "write_bytes h s m ch (verbose s) w = Some (Inr u, w1)"
    by (cases "write_bytes h s m ch (verbose s) w") (auto simp add: enter_def split: sum.splits)
  from ret assms wr obtain u' where wt: "enter_wait h s m ch w1 = Some (Inr u', w')" and s': "s' = s"
    by (cases "enter_wait h s m ch w1") (auto simp add: enter_def split: sum.splits)
  from enter_wait_shape [OF wt] obtain ocs oc where
    "bus_ops (trace w') = bus_ops (trace w1) @ retries (m AND 0x7F) ch ocs @ [BusRead (m AND 0x7F) 1 oc]"
    and "\<forall>q \<in> set ocs. read_value 1 q \<noteq> Inr ch" and "read_value 1 oc = Inr ch"
    by auto
  with write_bytes_bus [OF wr] s'
  show "s' = s \<and>
        (\<exists>ocs oc. bus_ops (trace w') =
             bus_ops (trace w) @ [BusWrite (m AND 0x7F) ch] @ retries (m AND 0x7F) ch ocs @ [BusRead (m AND 0x7F) 1 oc]
           \<and> (\<forall>q \<in> set ocs. read_value 1 q \<noteq> Inr ch) \<and> read_value 1 oc = Inr ch)"
    by auto
next
  assume live: "device s \<noteq> None \<and> length ch = 1 \<and> (\<forall>i \<ge> n_ioctl w. ioctl_ok h i)
          \<and> (\<forall>j < k. \<exists>b. polled h w j = Inr [b] \<and> [b] \<noteq> ch) \<and> polled h w k = Inr ch"
  then obtain fd where fd: "device s = Some fd" by auto
  from live have ok: "ioctl_ok h (n_ioctl w)" and len: "length ch = 1" by simp_all
  from write_bytes_retry [OF fd ok, of m ch "verbose s"] obtain w1 where
    wr: "write_bytes h s m ch (verbose s) w = Some (Inr (), w1)"
    and i1: "n_ioctl w1 = Suc (n_ioctl w)" and n1: "n_read w1 = n_read w"
    by auto
  from n1 have same: "polled h w1 j = polled h w j" for j by (simp add: polled_def)
  from live i1 have io1: "\<forall>i \<ge> n_ioctl w1. ioctl_ok h i" by simp
  from enter_wait_completes [OF fd len io1, of k m] live same obtain w2 where
    wt: "enter_wait h s m ch w1 = Some (Inr (), w2)" and n2: "n_read w2 = n_read w1 + Suc k"
    by auto
  from n1 n2 show "\<exists>w''. enter h s w = Some (Inr s, w'') \<and> n_read w'' = n_read w + Suc k"
    by (simp add: enter_def assms wr wt)
qed

theorem enter_locks_channel_witness:
  "mux (session_mux 0x70) = Some 0x70 \<and> channel (session_mux 0x70) = Some [4]
   \<and> device (session_mux 0x70) \<noteq> None \<and> length [4::byte] = 1
   \<and> polled (hw_switch 1 (Done [0]) (Done [4])) world0 0 = Inr [0]
   \<and> polled (hw_switch 1 (Done [0]) (Done [4])) world0 1 = Inr [4]
   \<and> (\<exists>w'. enter (hw_switch 1 (Done [0]) (Done [4])) (session_mux 0x70) world0 = Some (Inr (session_mux 0x70), w')
         \<and> n_read w' = 2
         \<and> (\<exists>ocs oc. bus_ops (trace w') =
               [BusWrite 0x70 [4]] @ retries 0x70 [4] ocs @ [BusRead 0x70 1 oc]
             \<and> (\<forall>q \<in> set ocs. read_value 1 q \<noteq> Inr [4]) \<and> read_value 1 oc = Inr [4]))"
proof -
  let ?h = "hw_switch 1 (Done [0]) (Done [4])"
  let ?s = "session_mux 0x70"
  have m: "mux ?s = Some 0x70" and ch: "channel ?s = Some [4]" and d: "device ?s \<noteq> None"
    by (simp_all add: session_mux_def)
  have p0: "polled ?h world0 0 = Inr [0]" and p1: "polled ?h world0 1 = Inr [4]"
    by (simp_all add: polled_def hw_switch_def world0_def read_value_def clip_outcome_def clip_def)
  have io: "\<forall>i \<ge> n_ioctl world0. ioctl_ok ?h i"
    by (simp add: hw_switch_def)
  have miss: "\<forall>j < 1. \<exists>b. polled ?h world0 j = Inr [b] \<and> [b] \<noteq> [4::byte]"
    using p0 by simp
  have a: "(0x70::int) AND 0x7F = 0x70" by simp
  from enter_locks_channel [OF m ch, of ?h world0 ?s world0 1] d io miss p1
  obtain w' where ret: "enter ?h ?s world0 = Some (Inr ?s, w')" and n: "n_read w' = n_read world0 + Suc 1"
    by auto
  from enter_locks_channel [OF m ch, of ?h world0 ?s w' 1] ret
  have "\<exists>ocs oc. bus_ops (trace w') =
             bus_ops (trace world0) @ [BusWrite (0x70 AND 0x7F) [4]] @ retries (0x70 AND 0x7F) [4] ocs @ [BusRead (0x70 AND 0x7F) 1 oc]
           \<and> (\<forall>q \<in> set ocs. read_value 1 q \<noteq> Inr [4]) \<and> read_value 1 oc = Inr [4]"
    by blast
  then have shape: "\<exists>ocs oc. bus_ops (trace w') =
               [BusWrite 0x70 [4]] @ retries 0x70 [4] ocs @ [BusRead 0x70 1 oc]
             \<and> (\<forall>q \<in> set ocs. read_value 1 q \<noteq> Inr [4]) \<and> read_value 1 oc = Inr [4]"
    by (simp add: a world0_def)
  from n have n': "n_read w' = 2" by (simp add: world0_def)
  from m ch d p0 p1 ret n' shape show ?thesis by auto
qed

subsection \<open>The loop of exit\<close>

lemma exit_wait_trace:
  "exit_wait h s m w = Some y \<Longrightarrow> \<exists>evs. trace (snd y) = trace w @ evs"
proof (erule exit_wait.raw_induct [rotated])
  fix f :: "hw \<Rightarrow> smbasic \<Rightarrow> int \<Rightarrow> world \<Rightarrow> ((exn + unit) \<times> world) option"
    and h s m w y
  assume IH: "\<And>h s m w y. f h s m w = Some y \<Longrightarrow> \<exists>evs. trace (snd y) = trace w @ evs"
  assume body: "(case read_bytes h s m 1 w of
        None \<Rightarrow> None
      | Some (Inl e, w1) \<Rightarrow> Some (Inl e, w1)
      | Some (Inr r, w1) \<Rightarrow>
          (case py_ord r of
             Inl e \<Rightarrow> Some (Inl e, w1)
           | Inr v \<Rightarrow>
               (case to_bytes1 v of
                  Inl e \<Rightarrow> Some (Inl e, w1)
                | Inr b \<Rightarrow>
                    if b \<noteq> [0] then
                      (case write_bytes h s m [0] (verbose s) (emit (Sleep_ms 50) w1) of
                         None \<Rightarrow> None
                       | Some (Inl e, w2) \<Rightarrow> Some (Inl e, w2)
                       | Some (Inr _, w2) \<Rightarrow> f h s m w2)
                    else Some (Inr (), w1)))) = Some y"
  from body obtain res w1 where rd: "read_bytes h s m 1 w = Some (res, w1)"
    by (cases "read_bytes h s m 1 w") auto
  from rd have t1: "\<exists>evs. trace w1 = trace w @ evs"
    by (rule read_bytes_trace)
  show "\<exists>evs. trace (snd y) = trace w @ evs"
  proof (cases "\<exists>w2. write_bytes h s m [0] (verbose s) (emit (Sleep_ms 50) w1) = Some (Inr (), w2) \<and> f h s m w2 = Some y")
    case True
    then obtain w2 where wr: "write_bytes h s m [0] (verbose s) (emit (Sleep_ms 50) w1) = Some (Inr (), w2)"
      and again: "f h s m w2 = Some y" by blast
    from write_bytes_trace [OF wr] have "\<exists>evs. trace w2 = trace w1 @ evs" by auto
    with t1 IH [OF again] show ?thesis by auto
  next
    case False
    have "snd y = w1 \<or> (\<exists>e w2. write_bytes h s m [0] (verbose s) (emit (Sleep_ms 50) w1) = Some (Inl e, w2) \<and> snd y = w2)"
      using body rd False
      by (auto split: sum.splits option.splits if_splits)
    then show ?thesis
    proof
      assume "snd y = w1"
      with t1 show ?thesis by simp
    next
      assume "\<exists>e w2. write_bytes h s m [0] (verbose s) (emit (Sleep_ms 50) w1) = Some (Inl e, w2) \<and> snd y = w2"
      then obtain e w2 where wr: "write_bytes h s m [0] (verbose s) (emit (Sleep_ms 50) w1) = Some (Inl e, w2)"
        and y: "snd y = w2" by blast
      from write_bytes_trace [OF wr] have "\<exists>evs. trace w2 = trace w1 @ evs" by auto
      with t1 y show ?thesis by auto
    qed
  qed
qed

lemma exit_wait_completes:
  assumes fd: "device s = Some fd"
  shows "\<forall>i \<ge> n_ioctl w. ioctl_ok h i \<Longrightarrow>
         \<forall>j < k. \<exists>b. polled h w j = Inr [b] \<and> b \<noteq> 0 \<Longrightarrow>
         polled h w k = Inr [0] \<Longrightarrow>
         \<exists>w'. exit_wait h s m w = Some (Inr (), w')"
proof (induction k arbitrary: w)
  case 0
  from 0 have ok: "ioctl_ok h (n_ioctl w)" by simp
  from read_bytes_poll [OF fd ok, of m] 0(3) obtain w1 where
    rd: "read_bytes h s m 1 w = Some (Inr [0], w1)"
    by auto
  have "exit_wait h s m w = Some (Inr (), w1)"
    by (subst exit_wait.simps) (simp add: rd py_ord_def to_bytes1_def)
  then show ?case by simp
next
  case (Suc k)
  from Suc.prems have ok: "ioctl_ok h (n_ioctl w)" by simp
  from Suc.prems(2) obtain b where b: "polled h w 0 = Inr [b]" and ne: "b \<noteq> 0" by auto
  from read_bytes_poll [OF fd ok, of m] b obtain w1 where
    rd: "read_bytes h s m 1 w = Some (Inr [b], w1)"
    and i1: "n_ioctl w1 = Suc (n_ioctl w)" and n1: "n_read w1 = Suc (n_read w)"
    by auto
  from Suc.prems(1) i1 have ok1: "ioctl_ok h (n_ioctl (emit (Sleep_ms 50) w1))" by simp
  from write_bytes_retry [OF fd ok1, of m "[0]" "verbose s"] obtain w2 where
    wr: "write_bytes h s m [0] (verbose s) (emit (Sleep_ms 50) w1) = Some (Inr (), w2)"
    and i2: "n_ioctl w2 = Suc (n_ioctl (emit (Sleep_ms 50) w1))"
    and n2: "n_read w2 = n_read (emit (Sleep_ms 50) w1)"
    by auto
  from n1 n2 have n2': "n_read w2 = Suc (n_read w)" by simp
  have io2: "\<forall>i \<ge> n_ioctl w2. ioctl_ok h i" using Suc.prems(1) i1 i2 by simp
  have miss2: "\<forall>j < k. \<exists>b. polled h w2 j = Inr [b] \<and> b \<noteq> 0"
    using Suc.prems(2) by (simp add: polled_shift [OF n2'])
  have hit2: "polled h w2 k = Inr [0]"
    using Suc.prems(3) by (simp add: polled_shift [OF n2'])
  from Suc.IH [OF io2 miss2 hit2] obtain w' where
    fin: "exit_wait h s m w2 = Some (Inr (), w')"
    by blast
  have "exit_wait h s m w = exit_wait h s m w2"
    by (subst exit_wait.simps) (simp add: rd wr ne ord_to_bytes_one)
  with fin show ?case by simp
qed

lemma exit_wait_stuck:
  "exit_wait h s m w = Some y \<Longrightarrow>
     \<not> (device s \<noteq> None \<and> (\<forall>i. ioctl_ok h i) \<and> (\<forall>i. \<exists>b. read_res h i = Done [b] \<and> b \<noteq> 0))"
proof (erule exit_wait.raw_induct [rotated])
  fix f :: "hw \<Rightarrow> smbasic \<Rightarrow> int \<Rightarrow> world \<Rightarrow> ((exn + unit) \<times> world) option"
    and h s m w y
  assume IH: "\<And>h s m w y. f h s m w = Some y \<Longrightarrow>
     \<not> (device s \<noteq> None \<and> (\<forall>i. ioctl_ok h i) \<and> (\<forall>i. \<exists>b. read_res h i = Done [b] \<and> b \<noteq> 0))"
  assume body: "(case read_bytes h s m 1 w of
        None \<Rightarrow> None
      | Some (Inl e, w1) \<Rightarrow> Some (Inl e, w1)
      | Some (Inr r, w1) \<Rightarrow>
          (case py_ord r of
             Inl e \<Rightarrow> Some (Inl e, w1)
           | Inr v \<Rightarrow>
               (case to_bytes1 v of
                  Inl e \<Rightarrow> Some (Inl e, w1)
                | Inr b \<Rightarrow>
                    if b \<noteq> [0] then
                      (case write_bytes h s m [0] (verbose s) (emit (Sleep_ms 50) w1) of
                         None \<Rightarrow> None
                       | Some (Inl e, w2) \<Rightarrow> Some (Inl e, w2)
                       | Some (Inr _, w2) \<Rightarrow> f h s m w2)
                    else Some (Inr (), w1)))) = Some y"
  show "\<not> (device s \<noteq> None \<and> (\<forall>i. ioctl_ok h i) \<and> (\<forall>i. \<exists>b. read_res h i = Done [b] \<and> b \<noteq> 0))"
  proof
    assume stuck: "device s \<noteq> None \<and> (\<forall>i. ioctl_ok h i) \<and> (\<forall>i. \<exists>b. read_res h i = Done [b] \<and> b \<noteq> 0)"
    then obtain fd where fd: "device s = Some fd" by auto
    from stuck have ok: "ioctl_ok h (n_ioctl w)" by simp
    from stuck obtain b where b: "read_res h (n_read w) = Done [b]" and ne: "b \<noteq> 0" by blast
    from b have p: "polled h w 0 = Inr [b]"
      by (simp add: polled_def clip_outcome_def clip_def read_value_def)
    from read_bytes_poll [OF fd ok, of m] p obtain w1 where
      rd: "read_bytes h s m 1 w = Some (Inr [b], w1)" by auto
    from stuck have ok1: "ioctl_ok h (n_ioctl (emit (Sleep_ms 50) w1))" by simp
    from write_bytes_retry [OF fd ok1, of m "[0]" "verbose s"] obtain w2 where
      wr: "write_bytes h s m [0] (verbose s) (emit (Sleep_ms 50) w1) = Some (Inr (), w2)" by auto
    from body have "f h s m w2 = Some y"
      by (simp add: rd wr ne ord_to_bytes_one)
    from IH [OF this] stuck show False by blast
  qed
qed

text \<open>\<open>__exit__\<close>, cut into its cases.\<close>

lemma close_device: "close s w = (s\<lparr>device := None\<rparr>, case device s of None \<Rightarrow> w | Some fd \<Rightarrow> emit (CloseDev fd) w)"
  by (cases "device s") (simp_all add: close_def)

lemma exit_no_mux:
  "mux s = None \<or> channel s = None \<Longrightarrow>
     exit h s exc w = Some (Inr False, s\<lparr>device := None\<rparr>, case device s of None \<Rightarrow> w | Some fd \<Rightarrow> emit (CloseDev fd) w)"
  by (auto simp add: exit_def close_device split: option.splits)

lemma exit_returned:
  assumes "exit h s exc w = Some (Inr b, s', w')"
  shows "b = False \<and> s' = s\<lparr>device := None\<rparr>
     \<and> (case device s of None \<Rightarrow> w' = w | Some fd \<Rightarrow> (\<exists>evs. trace w' = trace w @ evs @ [CloseDev fd]))"
proof (cases "mux s = None \<or> channel s = None")
  case True
  from assms show ?thesis
    by (auto simp add: exit_no_mux [OF True] split: option.splits)
next
  case False
  then obtain m ch where m: "mux s = Some m" and ch: "channel s = Some ch" by auto
  from assms m ch obtain u w1 where wr: "write_bytes h s 0x70 MUX_UNLOCK_REGISTER (verbose s) w = Some (Inr u, w1)"
    by (cases "write_bytes h s 0x70 MUX_UNLOCK_REGISTER (verbose s) w")
       (auto simp add: exit_def split: sum.splits)
  from assms m ch wr obtain u' w2 where wt: "exit_wait h s m w1 = Some (Inr u', w2)"
    by (cases "exit_wait h s m w1") (auto simp add: exit_def split: sum.splits)
  from wr obtain fd where fd: "device s = Some fd"
    by (rule write_bytes_returns)
  from write_bytes_trace [OF wr] exit_wait_trace [OF wt]
  obtain evs where evs: "trace w2 = trace w @ evs" by auto
  from assms m ch wr wt fd evs show ?thesis
    by (auto simp add: exit_def close_device)
qed

lemma exit_completes:
  assumes m: "mux s = Some m" and ch: "channel s = Some ch" and fd: "device s = Some fd"
    and io: "\<forall>i \<ge> n_ioctl w. ioctl_ok h i"
    and miss: "\<forall>j < k. \<exists>b. polled h w j = Inr [b] \<and> b \<noteq> 0"
    and hit: "polled h w k = Inr [0]"
  shows "\<exists>w'. exit h s exc w = Some (Inr False, s\<lparr>device := None\<rparr>, w')"
proof -
  from io have ok: "ioctl_ok h (n_ioctl w)" by simp
  from write_bytes_retry [OF fd ok, of "0x70" MUX_UNLOCK_REGISTER "verbose s"] obtain w1 where
    wr: "write_bytes h s 0x70 MUX_UNLOCK_REGISTER (verbose s) w = Some (Inr (), w1)"
    and i1: "n_ioctl w1 = Suc (n_ioctl w)" and n1: "n_read w1 = n_read w"
    by auto
  from n1 have same: "polled h w1 j = polled h w j" for j by (simp add: polled_def)
  from io i1 have io1: "\<forall>i \<ge> n_ioctl w1. ioctl_ok h i" by simp
  from exit_wait_completes [OF fd io1, of k m] miss hit same obtain w2 where
    wt: "exit_wait h s m w1 = Some (Inr (), w2)" by auto
  show ?thesis
    by (simp add: exit_def m ch wr wt close_device)
qed

subsection \<open>Leaving the scope\<close>

text \<open>The definitions of the model that a run on concrete hardware unfolds.\<close>

lemmas run_defs =
  exit_def enter_def write_bytes_def read_bytes_def select_device_def dev_read_def dev_write_def
  blocking_def set_alarm_def emit_def close_def clip_outcome_def clip_def bytearray_zeros_def
  py_ord_def to_bytes1_def MUX_UNLOCK_REGISTER_def I2C_TIMEOUT_def I2C_DEVICE_def Let_def

text \<open>
  C2. The run of \<open>__exit__\<close> for a session whose mux is at \<open>0x71\<close>, on hardware whose
  first read gives \<open>0x01\<close> and whose second gives \<open>0x00\<close>: the first write of the zero
  byte goes to slave address \<open>0x70\<close>, the literal in the code, not to the mux of the
  session; the reads and the second write of the zero byte, after a pause of 50 ms, go
  to \<open>0x71\<close>; the loop ends at the read that gives \<open>0x00\<close>, and the device is closed
  last.
\<close>

theorem exit_unlock_write_goes_to_0x70:
  "exit (hw_switch 1 (Done [1]) (Done [0])) (session_mux 0x71) None world0 =
     Some (Inr False, (session_mux 0x71)\<lparr>device := None\<rparr>,
       \<lparr>n_ioctl = 4, n_read = 2, n_write = 2, slave = 0x71, alarm = 0,
        trace =
          [Ioctl 1 0x0703 0x70, SigHandler, Alarm 2, DevWrite 0x70 [0] (Done 1), Alarm 0,
           Ioctl 1 0x0703 0x71, SigHandler, Alarm 2, DevRead 0x71 1 (Done [1]), Alarm 0,
           Sleep_ms 50,
           Ioctl 1 0x0703 0x71, SigHandler, Alarm 2, DevWrite 0x71 [0] (Done 1), Alarm 0,
           Ioctl 1 0x0703 0x71, SigHandler, Alarm 2, DevRead 0x71 1 (Done [0]), Alarm 0,
           CloseDev 1]\<rparr>)"
  apply (simp add: run_defs hw_switch_def session_mux_def world0_def)
  apply (subst exit_wait.simps)
  apply (simp add: run_defs hw_switch_def session_mux_def world0_def)
  apply (subst exit_wait.simps)
  apply (simp add: run_defs hw_switch_def session_mux_def world0_def)
  done

text \<open>
  C4, as stated, fails. With a mux configured and an ioctl that fails, \<open>__exit__\<close> raises
  the OSError of \<open>_select_device\<close> and the device is still open; with a mux that keeps
  answering \<open>0x01\<close>, \<open>__exit__\<close> polls forever and never reaches \<open>close\<close>.
\<close>

theorem exit_can_leave_device_open:
  "exit hw_refusing (session_mux 0x70) None world0 =
     Some (Inl OSError, session_mux 0x70,
       \<lparr>n_ioctl = 1, n_read = 0, n_write = 0, slave = 0, alarm = 0, trace = [Ioctl 1 0x0703 0x70]\<rparr>)
   \<and> device (session_mux 0x70) = Some 1
   \<and> exit (hw_const (Done [1]) (Done 1)) (session_mux 0x70) None world0 = None"
proof -
  let ?h = "hw_const (Done [1]) (Done 1)"
  let ?s = "session_mux 0x70"
  have refused: "exit hw_refusing ?s None world0 =
     Some (Inl OSError, ?s,
       \<lparr>n_ioctl = 1, n_read = 0, n_write = 0, slave = 0, alarm = 0, trace = [Ioctl 1 0x0703 0x70]\<rparr>)"
    by (simp add: run_defs hw_refusing_def session_mux_def world0_def)
  have stuck: "device ?s \<noteq> None \<and> (\<forall>i. ioctl_ok ?h i) \<and> (\<forall>i. \<exists>b. read_res ?h i = Done [b] \<and> b \<noteq> 0)"
    by (simp add: hw_const_def session_mux_def)
  have never: "exit_wait ?h ?s m w = None" for m w
  proof (cases "exit_wait ?h ?s m w")
    case None
    then show ?thesis .
  next
    case (Some y)
    from exit_wait_stuck [OF Some] stuck show ?thesis by blast
  qed
  have fd: "device ?s = Some 1" by (simp add: session_mux_def)
  have ok: "ioctl_ok ?h (n_ioctl world0)" by (simp add: hw_const_def)
  from write_bytes_retry [OF fd ok, of "0x70" MUX_UNLOCK_REGISTER "verbose ?s"] obtain w1 where
    wr: "write_bytes ?h ?s 0x70 MUX_UNLOCK_REGISTER (verbose ?s) world0 = Some (Inr (), w1)" by auto
  have m: "mux ?s = Some 0x70" "channel ?s = Some [4]" by (simp_all add: session_mux_def)
  have forever: "exit ?h ?s None world0 = None"
    using wr never [of "0x70" w1] by (simp add: exit_def m)
  from refused fd forever show ?thesis by simp
qed

text \<open>
  C4, amended. \<open>__exit__\<close> does not look at the outcome of the body. Without a mux it
  always returns False with the device closed. With a mux it does so whenever the unlock
  sequence completes, which it does on an open session whose ioctls succeed once a poll
  hands back the zero byte after \<open>k\<close> polls that handed back another byte. And whenever
  \<open>__exit__\<close> returns, it returns False, the device is None, nothing else of the session
  has changed, and closing the device was the last thing it did.
\<close>

theorem exit_closes_device:
  "(mux s = None \<or> channel s = None \<longrightarrow>
      (\<exists>w'. exit h s exc w = Some (Inr False, s\<lparr>device := None\<rparr>, w')))
   \<and> (exit h s exc w = Some (Inr b, s', w') \<longrightarrow>
        b = False \<and> s' = s\<lparr>device := None\<rparr> \<and> device s' = None
        \<and> (\<forall>fd. device s = Some fd \<longrightarrow> (\<exists>evs. trace w' = trace w @ evs @ [CloseDev fd])))
   \<and> (mux s = Some m \<and> channel s = Some ch \<and> device s = Some fd \<and> (\<forall>i \<ge> n_ioctl w. ioctl_ok h i)
        \<and> (\<forall>j < k. \<exists>x. polled h w j = Inr [x] \<and> x \<noteq> 0) \<and> polled h w k = Inr [0] \<longrightarrow>
      (\<exists>w'. exit h s exc w = Some (Inr False, s\<lparr>device := None\<rparr>, w')))
   \<and> exit h s exc w = exit h s exc' w"
proof (intro conjI)
  show "mux s = None \<or> channel s = None \<longrightarrow>
      (\<exists>w'. exit h s exc w = Some (Inr False, s\<lparr>device := None\<rparr>, w'))"
    by (simp add: exit_no_mux)
  show "exit h s exc w = Some (Inr b, s', w') \<longrightarrow>
        b = False \<and> s' = s\<lparr>device := None\<rparr> \<and> device s' = None
        \<and> (\<forall>fd. device s = Some fd \<longrightarrow> (\<exists>evs. trace w' = trace w @ evs @ [CloseDev fd]))"
  proof
    assume "exit h s exc w = Some (Inr b, s', w')"
    from exit_returned [OF this] show "b = False \<and> s' = s\<lparr>device := None\<rparr> \<and> device s' = None
        \<and> (\<forall>fd. device s = Some fd \<longrightarrow> (\<exists>evs. trace w' = trace w @ evs @ [CloseDev fd]))"
      by auto
  qed
  show "mux s = Some m \<and> channel s = Some ch \<and> device s = Some fd \<and> (\<forall>i \<ge> n_ioctl w. ioctl_ok h i)
        \<and> (\<forall>j < k. \<exists>x. polled h w j = Inr [x] \<and> x \<noteq> 0) \<and> polled h w k = Inr [0] \<longrightarrow>
      (\<exists>w'. exit h s exc w = Some (Inr False, s\<lparr>device := None\<rparr>, w'))"
    using exit_completes [of s m ch fd w h k exc] by blast
  show "exit h s exc w = exit h s exc' w"
    by (simp add: exit_def)
qed

theorem exit_closes_device_witness:
  "(mux session0 = None \<or> channel session0 = None)
   \<and> (\<exists>w'. exit (hw_const Hang Hang) session0 None world0 = Some (Inr False, session0\<lparr>device := None\<rparr>, w'))
   \<and> mux (session_mux 0x70) = Some 0x70 \<and> channel (session_mux 0x70) = Some [4]
   \<and> device (session_mux 0x70) = Some 1
   \<and> polled (hw_switch 1 (Done [1]) (Done [0])) world0 0 = Inr [1]
   \<and> polled (hw_switch 1 (Done [1]) (Done [0])) world0 1 = Inr [0]
   \<and> (\<exists>w'. exit (hw_switch 1 (Done [1]) (Done [0])) (session_mux 0x70) (Some (Exception ''boom'')) world0
              = Some (Inr False, (session_mux 0x70)\<lparr>device := None\<rparr>, w')
         \<and> (\<exists>evs. trace w' = trace world0 @ evs @ [CloseDev 1]))"
proof -
  let ?h = "hw_switch 1 (Done [1]) (Done [0])"
  let ?s = "session_mux 0x70"
  let ?e = "Some (Exception ''boom'')"
  have nomux: "mux session0 = None \<or> channel session0 = None" by (simp add: session0_def)
  have m: "mux ?s = Some 0x70" and ch: "channel ?s = Some [4]" and fd: "device ?s = Some 1"
    by (simp_all add: session_mux_def)
  have p0: "polled ?h world0 0 = Inr [1]" and p1: "polled ?h world0 1 = Inr [0]"
    by (simp_all add: polled_def hw_switch_def world0_def read_value_def clip_outcome_def clip_def)
  have io: "\<forall>i \<ge> n_ioctl world0. ioctl_ok ?h i"
    by (simp add: hw_switch_def)
  have miss: "\<forall>j < 1. \<exists>x. polled ?h world0 j = Inr [x] \<and> x \<noteq> 0"
    using p0 by simp
  from exit_closes_device [of session0 "hw_const Hang Hang" None world0] nomux
  have a: "\<exists>w'. exit (hw_const Hang Hang) session0 None world0 = Some (Inr False, session0\<lparr>device := None\<rparr>, w')"
    by blast
  from exit_closes_device [of ?s ?h ?e world0 _ _ _ "0x70" "[4]" 1 1] m ch fd io miss p1
  obtain w' where ret: "exit ?h ?s ?e world0 = Some (Inr False, ?s\<lparr>device := None\<rparr>, w')"
    by blast
  from exit_closes_device [of ?s ?h ?e world0 False "?s\<lparr>device := None\<rparr>" w'] ret fd
  have "\<exists>evs. trace w' = trace world0 @ evs @ [CloseDev 1]"
    by blast
  with nomux a m ch fd p0 p1 ret show ?thesis by blast
qed



end
